theory Spec2Isabelle
  imports Main "HOL-Library.Sublist" "HOL-Library.AList"
begin

section \<open>Data model\<close>

text \<open>
  A decoded DICOM dataset is a keyed collection of data elements. It is modelled as an
  association list from element keywords to element values.

  The value of an element is a character string, or, when the element holds several
  values, a multi-value object (pydicom's \<^verbatim>\<open>MultiValue\<close>). A multi-value object carries
  its items and the text that \<^verbatim>\<open>str\<close> gives for it, which is the library's. It has no
  string methods: \<^verbatim>\<open>startswith\<close> on it raises \<^verbatim>\<open>AttributeError\<close>, \<^verbatim>\<open>x in\<close> it
  tests whether \<^verbatim>\<open>x\<close> is one of the items, and \<^verbatim>\<open>''.join\<close> over it raises
  \<^verbatim>\<open>TypeError\<close>. The two elements that are only tested for presence (\<^verbatim>\<open>KVP\<close> and
  \<^verbatim>\<open>RadiopharmaceuticalInformationSequence\<close>) carry a value that is never read.

  \<^item> \<^verbatim>\<open>name in dataset\<close> is \<open>map_of ds name \<noteq> None\<close>;
  \<^item> \<^verbatim>\<open>dataset.data_element(name).value\<close> is \<open>map_of ds name\<close>, and raises
    \<^verbatim>\<open>KeyError\<close> where that is \<open>None\<close>;
  \<^item> \<^verbatim>\<open>dataset.data_element(name).value = v\<close>, which the code only executes on an
    element that is present, is \<open>AList.update name v ds\<close>;
  \<^item> the truth value of a dataset (\<^verbatim>\<open>if dataset:\<close>) is that of its length: \<^verbatim>\<open>None\<close>
    and a dataset with no data element are both false.
\<close>

datatype elem_value = Text string | Multi "string list" string

type_synonym dataset = "(string \<times> elem_value) list"

text \<open>
  The exceptions that the code can meet. \<^verbatim>\<open>InvalidDicomError\<close> is the one the Loader
  catches; the last four are failures of the operating system on a path.
\<close>

datatype py_error =
    TypeError | KeyError | AttributeError | InvalidDicomError
  | PermissionError | FileNotFoundError | IsADirectoryError | NotADirectoryError

text \<open>A call either raises (\<open>Inl\<close>) or returns (\<open>Inr\<close>).\<close>

type_synonym 'a outcome = "py_error + 'a"

text \<open>
  The Status Sink is a callback taking one line of text; nothing it returns is used.
  What a function does to it is the list of messages it passes, in call order: every
  function that takes \<^verbatim>\<open>status_output\<close> returns that list next to its outcome. The
  messages passed before an exception is raised are kept.
\<close>

type_synonym 'a reported = "string list \<times> 'a outcome"

fun truthy :: "dataset option \<Rightarrow> bool" where
  "truthy None = False"
| "truthy (Some ds) = (ds \<noteq> [])"

subsection \<open>Python string operations\<close>

fun startswith :: "string \<Rightarrow> string \<Rightarrow> bool" where
  "startswith s [] = True"
| "startswith [] (p # ps) = False"
| "startswith (c # cs) (p # ps) = (c = p \<and> startswith cs ps)"

text \<open>\<open>str_in needle s\<close> is Python's \<^verbatim>\<open>needle in s\<close> on two strings.\<close>

fun str_in :: "string \<Rightarrow> string \<Rightarrow> bool" where
  "str_in needle [] = (needle = [])"
| "str_in needle (c # cs) = (startswith (c # cs) needle \<or> str_in needle cs)"

text \<open>
  \<open>py_in needle v\<close> is \<^verbatim>\<open>needle in v\<close> on the value of an element, and \<open>py_str v\<close>
  is the text a format string puts in for it.
\<close>

fun py_in :: "string \<Rightarrow> elem_value \<Rightarrow> bool" where
  "py_in needle (Text s) = str_in needle s"
| "py_in needle (Multi items rendering) = (needle \<in> set items)"

fun py_str :: "elem_value \<Rightarrow> string" where
  "py_str (Text s) = s"
| "py_str (Multi items rendering) = rendering"

definition tab :: char where
  "tab = CHR 0x09"

definition dquote :: char where
  "dquote = CHR 0x22"

subsection \<open>The input directory\<close>

text \<open>
  A file carries its name and what \<^verbatim>\<open>pydicom.dcmread\<close> does on it: it returns the
  decoded dataset or raises an error. A directory carries its name and its entries in the
  order the file system lists them.
\<close>

datatype fs_node = File string "dataset outcome" | Dir string "fs_node list"

fun dcmread :: "fs_node \<Rightarrow> dataset outcome" where
  "dcmread (File n r) = r"
| "dcmread (Dir n cs) = Inl IsADirectoryError"

fun node_name :: "fs_node \<Rightarrow> string" where
  "node_name (File n r) = n"
| "node_name (Dir n cs) = n"

fun is_file :: "fs_node \<Rightarrow> bool" where
  "is_file (File n r) = True"
| "is_file (Dir n cs) = False"

text \<open>
  \<^verbatim>\<open>data_path.glob('**/*')\<close>: the entries of the directory, then those of each of its
  subdirectories in turn, recursively. \<^verbatim>\<open>data_path.glob('*.*')\<close>: the entries of the
  directory itself whose name has a dot in it.
\<close>

fun glob_recursive :: "fs_node \<Rightarrow> fs_node list" where
  "glob_recursive (File n r) = []"
| "glob_recursive (Dir n cs) = cs @ concat (map glob_recursive cs)"

fun glob_dotted :: "fs_node \<Rightarrow> fs_node list" where
  "glob_dotted (File n r) = []"
| "glob_dotted (Dir n cs) = filter (\<lambda>c. CHR ''.'' \<in> set (node_name c)) cs"

definition glob :: "fs_node \<Rightarrow> bool \<Rightarrow> fs_node list" where
  "glob data_path include_subdirectories =
     (if include_subdirectories then glob_recursive data_path else glob_dotted data_path)"

section \<open>Dataset Loader\<close>

definition load_header :: "fs_node \<Rightarrow> dataset option reported" where
  "load_header file_path =
     (case dcmread file_path of
        Inr dataset \<Rightarrow> ([], Inr (Some dataset))
      | Inl e \<Rightarrow>
          if e = InvalidDicomError
          then ([node_name file_path @ '' did not contain valid DICOM data.  Skipped.''],
                Inr None)
          else ([], Inl e))"

section \<open>Corpus Scanner\<close>

text \<open>
  \<^verbatim>\<open>get_dicom_images\<close> is a generator. Its behaviour is the sequence of what it does
  when it is consumed to the end: the messages it passes to the Status Sink, the datasets
  it yields, and the error it raises, if any, after which nothing follows. This is the
  generator on a directory tree that nothing changes while it is consumed.
\<close>

datatype gen_event = Emit string | Yield dataset | Abort py_error

fun scan_entries :: "fs_node list \<Rightarrow> gen_event list" where
  "scan_entries [] = []"
| "scan_entries (dicom_file # rest) =
     (if is_file dicom_file then
        Emit (''Checking file '' @ node_name dicom_file) #
        (case load_header dicom_file of
           (msgs, Inl e) \<Rightarrow> map Emit msgs @ [Abort e]
         | (msgs, Inr dataset) \<Rightarrow>
             map Emit msgs @ (if truthy dataset then [Yield (the dataset)] else [])
               @ scan_entries rest)
      else scan_entries rest)"

definition get_dicom_images :: "fs_node \<Rightarrow> bool \<Rightarrow> gen_event list" where
  "get_dicom_images data_path include_subdirectories =
     scan_entries (glob data_path include_subdirectories)"

section \<open>The file system of a run\<close>

text \<open>
  \<^verbatim>\<open>perform_repairs\<close> reads the directory \<^verbatim>\<open>input_path\<close> and writes into the
  directory \<^verbatim>\<open>output_path\<close> of one file system. Either \<^verbatim>\<open>output_path\<close> is
  \<^verbatim>\<open>input_path\<close> or a directory below it, given by the names that lead to it from
  \<^verbatim>\<open>input_path\<close>, and then every file saved is a file of the tree that is scanned; or
  it is elsewhere, and then the files it holds are kept apart, as an association list
  from file names to the datasets saved under them.
\<close>

type_synonym path = "string list"

type_synonym directory = "(string \<times> dataset) list"

datatype output_location = Elsewhere | Under path

record filesystem =
  input_tree :: fs_node
  elsewhere :: directory

fun entry_named :: "string \<Rightarrow> fs_node list \<Rightarrow> fs_node option" where
  "entry_named name [] = None"
| "entry_named name (c # cs) = (if node_name c = name then Some c else entry_named name cs)"

text \<open>The entries of the directory that a path leads to, when it leads to a directory.\<close>

fun entries_at :: "fs_node \<Rightarrow> path \<Rightarrow> fs_node list option" where
  "entries_at (File n r) p = None"
| "entries_at (Dir n cs) [] = Some cs"
| "entries_at (Dir n cs) (x # p) =
     (case entry_named x cs of None \<Rightarrow> None | Some c \<Rightarrow> entries_at c p)"

text \<open>
  \<^verbatim>\<open>dataset.save_as\<close> replaces the file of that name when there is one and creates it
  otherwise, after the entries that are there; it fails when the name is that of a
  directory. Reading a saved file again gives the dataset that was saved.
\<close>

fun put_file :: "string \<Rightarrow> dataset \<Rightarrow> fs_node list \<Rightarrow> fs_node list outcome" where
  "put_file name ds [] = Inr [File name (Inr ds)]"
| "put_file name ds (c # cs) =
     (if node_name c = name
      then (if is_file c then Inr (File name (Inr ds) # cs) else Inl IsADirectoryError)
      else (case put_file name ds cs of Inl e \<Rightarrow> Inl e | Inr cs' \<Rightarrow> Inr (c # cs')))"

fun replace_entry :: "string \<Rightarrow> fs_node \<Rightarrow> fs_node list \<Rightarrow> fs_node list" where
  "replace_entry name c' [] = []"
| "replace_entry name c' (c # cs) =
     (if node_name c = name then c' # cs else c # replace_entry name c' cs)"

fun write_under :: "path \<Rightarrow> string \<Rightarrow> dataset \<Rightarrow> fs_node \<Rightarrow> fs_node outcome" where
  "write_under p name ds (File n r) = Inl NotADirectoryError"
| "write_under [] name ds (Dir n cs) =
     (case put_file name ds cs of Inl e \<Rightarrow> Inl e | Inr cs' \<Rightarrow> Inr (Dir n cs'))"
| "write_under (x # p) name ds (Dir n cs) =
     (case entry_named x cs of
        None \<Rightarrow> Inl FileNotFoundError
      | Some c \<Rightarrow>
          (case write_under p name ds c of
             Inl e \<Rightarrow> Inl e
           | Inr c' \<Rightarrow> Inr (Dir n (replace_entry x c' cs))))"

section \<open>Output Writer\<close>

text \<open>
  \<^verbatim>\<open>build_dicom_file_name\<close> reads both elements with \<^verbatim>\<open>data_element\<close> and no
  presence test, so a missing element raises \<^verbatim>\<open>KeyError\<close>; it then joins the two
  values, which raises \<^verbatim>\<open>TypeError\<close> when one of them is not a string.
\<close>

definition build_dicom_file_name :: "dataset \<Rightarrow> string outcome" where
  "build_dicom_file_name dataset =
     (case map_of dataset ''Modality'' of
        None \<Rightarrow> Inl KeyError
      | Some modality \<Rightarrow>
          (case map_of dataset ''SOPInstanceUID'' of
             None \<Rightarrow> Inl KeyError
           | Some instance_uid \<Rightarrow>
               (case (modality, instance_uid) of
                  (Text m, Text u) \<Rightarrow> Inr (concat [m, u, ''.dcm''])
                | _ \<Rightarrow> Inl TypeError)))"

definition save_dicom_dataset ::
    "dataset \<Rightarrow> output_location \<Rightarrow> filesystem \<Rightarrow> filesystem outcome" where
  "save_dicom_dataset dataset output_path fs =
     (case build_dicom_file_name dataset of
        Inl e \<Rightarrow> Inl e
      | Inr output_file_name \<Rightarrow>
          (case output_path of
             Elsewhere \<Rightarrow>
               Inr (fs\<lparr>elsewhere := AList.update output_file_name dataset (elsewhere fs)\<rparr>)
           | Under p \<Rightarrow>
               (case write_under p output_file_name dataset (input_tree fs) of
                  Inl e \<Rightarrow> Inl e
                | Inr tree \<Rightarrow> Inr (fs\<lparr>input_tree := tree\<rparr>))))"

section \<open>Repair Rules\<close>

text \<open>
  A repair rule takes the dataset the pipeline holds, which is \<^verbatim>\<open>None\<close> once a rule has
  returned \<^verbatim>\<open>None\<close>, and returns a dataset or \<^verbatim>\<open>None\<close>. Each of the three rules
  starts with a test \<^verbatim>\<open>name in dataset\<close>, which raises \<^verbatim>\<open>TypeError\<close> on \<^verbatim>\<open>None\<close>.
\<close>

type_synonym repair_method = "dataset option \<Rightarrow> dataset option reported"

subsection \<open>Invalid characters\<close>

definition invalid_character_message :: "string \<Rightarrow> string" where
  "invalid_character_message name =
     concat [''Invalid Character found in element '', name, ''.'',
             [tab], ''Replaced with blank string.'']"

text \<open>
  The loop over the element names, on the names that remain, the messages passed so far
  and the dataset. \<^verbatim>\<open>data_element.value.startswith\<close> raises \<^verbatim>\<open>AttributeError\<close> on a
  value that is not a string, and the loop ends there.
\<close>

fun clear_invalid_elements ::
    "string list \<Rightarrow> string list \<Rightarrow> dataset \<Rightarrow> dataset option reported" where
  "clear_invalid_elements [] msgs dataset = (msgs, Inr (Some dataset))"
| "clear_invalid_elements (element_name # rest) msgs dataset =
     (case map_of dataset element_name of
        None \<Rightarrow> clear_invalid_elements rest msgs dataset
      | Some (Multi items rendering) \<Rightarrow> (msgs, Inl AttributeError)
      | Some (Text v) \<Rightarrow>
          if startswith v ''/''
          then clear_invalid_elements rest
                 (msgs @ [invalid_character_message element_name])
                 (AList.update element_name (Text '''') dataset)
          else clear_invalid_elements rest msgs dataset)"

definition fix_invalid_characters :: repair_method where
  "fix_invalid_characters dataset =
     (case dataset of
        None \<Rightarrow> ([], Inl TypeError)
      | Some ds \<Rightarrow>
          clear_invalid_elements [''BodyPartExamined'', ''OtherPatientIDs''] [] ds)"

subsection \<open>Incorrect modality\<close>

definition modality_message :: "string \<Rightarrow> string \<Rightarrow> string" where
  "modality_message old_modality new_modality =
     concat [''Incorrect Modality found.'', [tab], ''Modality changed from '',
             [dquote], old_modality, [dquote], '' to '', [dquote], new_modality, [dquote]]"

text \<open>
  The value of \<^verbatim>\<open>Modality\<close> is read once, before the two checks: the second check
  tests the value the dataset had on entry, not the one the first check may have written.
\<close>

definition fix_incorrect_modality :: repair_method where
  "fix_incorrect_modality dataset =
     (case dataset of
        None \<Rightarrow> ([], Inl TypeError)
      | Some ds \<Rightarrow>
          (case map_of ds ''Modality'' of
             None \<Rightarrow> ([''Modality element not found. File not used.''], Inr None)
           | Some modality \<Rightarrow>
               (case (if map_of ds ''KVP'' \<noteq> None \<and> \<not> py_in ''CT'' modality
                      then ([modality_message (py_str modality) ''CT''],
                            AList.update ''Modality'' (Text ''CT'') ds)
                      else ([], ds)) of
                  (msgs1, ds1) \<Rightarrow>
                    (if map_of ds1 ''RadiopharmaceuticalInformationSequence'' \<noteq> None
                        \<and> \<not> py_in ''PT'' modality
                     then (msgs1 @ [modality_message (py_str modality) ''PT''],
                           Inr (Some (AList.update ''Modality'' (Text ''PT'') ds1)))
                     else (msgs1, Inr (Some ds1))))))"

subsection \<open>Incorrect address\<close>

definition address_message :: "string \<Rightarrow> string" where
  "address_message address =
     concat [''Mismatched Institution Addresses Suspected.'', [tab], ''Address: '',
             [dquote], address, [dquote], '' Replaced with blank string.'']"

definition fix_incorrect_address :: repair_method where
  "fix_incorrect_address dataset =
     (case dataset of
        None \<Rightarrow> ([], Inl TypeError)
      | Some ds \<Rightarrow>
          (case map_of ds ''InstitutionAddress'' of
             None \<Rightarrow> ([], Inr (Some ds))
           | Some address \<Rightarrow>
               if py_in ''Mississauga'' address
               then ([address_message (py_str address)],
                     Inr (Some (AList.update ''InstitutionAddress'' (Text '''') ds)))
               else ([], Inr (Some ds))))"

definition repair_methods :: "repair_method list" where
  "repair_methods = [fix_invalid_characters, fix_incorrect_modality, fix_incorrect_address]"

section \<open>Repair Pipeline\<close>

text \<open>
  The state of a run: the messages passed to the Status Sink so far, the file system,
  and the exception that ended the run, if one did.
\<close>

record run =
  messages :: "string list"
  files :: filesystem
  raised :: "py_error option"

text \<open>
  One step after another: the second starts on the file system the first has left,
  unless the first has raised.
\<close>

definition and_then :: "run \<Rightarrow> (filesystem \<Rightarrow> run) \<Rightarrow> run" where
  "and_then r1 next_step =
     (if raised r1 \<noteq> None then r1
      else (let r2 = next_step (files r1) in r2\<lparr>messages := messages r1 @ messages r2\<rparr>))"

text \<open>
  The inner loop of \<^verbatim>\<open>perform_repairs\<close>, on the remaining rules. The test
  \<^verbatim>\<open>if dataset:\<close> and the call of \<^verbatim>\<open>save_dicom_dataset\<close> are in the body of this loop:
  they run after each rule, and the loop has no \<^verbatim>\<open>break\<close>.
\<close>

fun apply_repairs ::
    "repair_method list \<Rightarrow> dataset option \<Rightarrow> output_location \<Rightarrow> filesystem \<Rightarrow> run" where
  "apply_repairs [] dataset output_path fs =
     \<lparr>messages = [], files = fs, raised = None\<rparr>"
| "apply_repairs (repair_method # rest) dataset output_path fs =
     (case repair_method dataset of
        (msgs, Inl e) \<Rightarrow> \<lparr>messages = msgs, files = fs, raised = Some e\<rparr>
      | (msgs, Inr dataset') \<Rightarrow>
          (case (if truthy dataset' then save_dicom_dataset (the dataset') output_path fs
                 else Inr fs) of
             Inl e \<Rightarrow> \<lparr>messages = msgs, files = fs, raised = Some e\<rparr>
           | Inr fs' \<Rightarrow>
               (let r = apply_repairs rest dataset' output_path fs'
                in r\<lparr>messages := msgs @ messages r\<rparr>)))"

text \<open>
  The outer loop on what the generator does for the entries it has at hand: a message
  goes to the Status Sink, a dataset that is yielded goes through the rules, an error
  ends the run.
\<close>

fun repair_each ::
    "gen_event list \<Rightarrow> repair_method list \<Rightarrow> output_location \<Rightarrow> filesystem \<Rightarrow> run" where
  "repair_each [] rules output_path fs =
     \<lparr>messages = [], files = fs, raised = None\<rparr>"
| "repair_each (Emit m # evs) rules output_path fs =
     (let r = repair_each evs rules output_path fs in r\<lparr>messages := m # messages r\<rparr>)"
| "repair_each (Abort e # evs) rules output_path fs =
     \<lparr>messages = [], files = fs, raised = Some e\<rparr>"
| "repair_each (Yield dataset # evs) rules output_path fs =
     and_then (apply_repairs rules (Some dataset) output_path fs)
       (repair_each evs rules output_path)"

text \<open>
  The generator is consumed while the rules write. \<^verbatim>\<open>glob('**/*')\<close> lists a directory
  when it comes to it, and gives the names it has found one at a time; the file behind
  a name is looked at (\<^verbatim>\<open>is_file\<close>) and read (\<^verbatim>\<open>dcmread\<close>) when its turn comes, so
  what has been saved in between is what is read. \<open>repair_listed\<close> is the loop over the
  names found in the directory at path \<open>p\<close>.
\<close>

fun repair_listed ::
    "string list \<Rightarrow> path \<Rightarrow> repair_method list \<Rightarrow> output_location \<Rightarrow> filesystem \<Rightarrow> run" where
  "repair_listed [] p rules output_path fs =
     \<lparr>messages = [], files = fs, raised = None\<rparr>"
| "repair_listed (name # names) p rules output_path fs =
     and_then
       (case entries_at (input_tree fs) p of
          None \<Rightarrow> \<lparr>messages = [], files = fs, raised = None\<rparr>
        | Some cs \<Rightarrow>
            (case entry_named name cs of
               None \<Rightarrow> \<lparr>messages = [], files = fs, raised = None\<rparr>
             | Some dicom_file \<Rightarrow> repair_each (scan_entries [dicom_file]) rules output_path fs))
       (repair_listed names p rules output_path)"

definition listing :: "fs_node \<Rightarrow> path \<Rightarrow> string list" where
  "listing tree p = (case entries_at tree p of None \<Rightarrow> [] | Some cs \<Rightarrow> map node_name cs)"

text \<open>
  The walk of \<^verbatim>\<open>glob('**/*')\<close>: the entries of the directory, then each of its
  subdirectories in turn. Saving creates and replaces files only, so the directories
  are those that were there at the start: the walk follows the tree as it was, and lists
  each directory as it is when the walk comes to it.
\<close>

fun repair_tree ::
    "fs_node \<Rightarrow> path \<Rightarrow> repair_method list \<Rightarrow> output_location \<Rightarrow> filesystem \<Rightarrow> run"
and repair_trees ::
    "fs_node list \<Rightarrow> path \<Rightarrow> repair_method list \<Rightarrow> output_location \<Rightarrow> filesystem \<Rightarrow> run" where
  "repair_tree (File n r) p rules output_path fs =
     \<lparr>messages = [], files = fs, raised = None\<rparr>"
| "repair_tree (Dir n cs) p rules output_path fs =
     and_then (repair_listed (listing (input_tree fs) p) p rules output_path fs)
       (repair_trees cs p rules output_path)"
| "repair_trees [] p rules output_path fs =
     \<lparr>messages = [], files = fs, raised = None\<rparr>"
| "repair_trees (c # cs) p rules output_path fs =
     and_then (repair_tree c (p @ [node_name c]) rules output_path fs)
       (repair_trees cs p rules output_path)"

definition perform_repairs ::
    "filesystem \<Rightarrow> output_location \<Rightarrow> repair_method list \<Rightarrow> run" where
  "perform_repairs fs output_path rules =
     repair_tree (input_tree fs) [] rules output_path fs"

section \<open>Predicates used in the statements\<close>


text \<open>The element is absent, or its value is one string.\<close>

definition text_or_absent :: "dataset \<Rightarrow> string \<Rightarrow> bool" where
  "text_or_absent ds name =
     (case map_of ds name of Some (Multi items rendering) \<Rightarrow> False | _ \<Rightarrow> True)"

text \<open>
  Two runs that start on the directories \<open>d\<close> and \<open>d'\<close> and end on \<open>out\<close> and
  \<open>out'\<close> have written the same files: under every name the two results hold the same
  content, or each still holds what it started with.
\<close>

definition same_writes :: "directory \<Rightarrow> directory \<Rightarrow> directory \<Rightarrow> directory \<Rightarrow> bool" where
  "same_writes d d' out out' =
     (\<forall>k. map_of out k = map_of out' k
          \<or> (map_of out k = map_of d k \<and> map_of out' k = map_of d' k))"

text \<open>
  Two runs that start on the file systems \<open>fs\<close> and \<open>fs'\<close> have done the same: they
  have passed the same messages, ended the same way, left the scanned tree as it was
  and written the same files elsewhere.
\<close>

definition same_effect :: "filesystem \<Rightarrow> filesystem \<Rightarrow> run \<Rightarrow> run \<Rightarrow> bool" where
  "same_effect fs fs' r r' =
     (messages r = messages r' \<and> raised r = raised r'
      \<and> input_tree (files r) = input_tree fs \<and> input_tree (files r') = input_tree fs'
      \<and> same_writes (elsewhere fs) (elsewhere fs') (elsewhere (files r)) (elsewhere (files r')))"

text \<open>
  In every directory of the tree the entries have different names, as in a file system.
\<close>

fun names_distinct :: "fs_node \<Rightarrow> bool" where
  "names_distinct (File n r) = True"
| "names_distinct (Dir n cs) =
     (distinct (map node_name cs) \<and> (\<forall>c \<in> set cs. names_distinct c))"

section \<open>The string operations are the library's\<close>

lemma startswith_prefix: "startswith s p = prefix p s"
  by (induction s p rule: startswith.induct) auto

lemma str_in_sublist: "str_in needle s = sublist needle s"
  by (induction s) (auto simp: startswith_prefix sublist_Cons_right)

text \<open>Each repair message quotes the element name or the old value it is about.\<close>

lemma invalid_character_message_name: "sublist name (invalid_character_message name)"
proof -
  have "invalid_character_message name =
      ''Invalid Character found in element '' @ name
        @ (''.'' @ [tab] @ ''Replaced with blank string.'')"
    by (simp add: invalid_character_message_def)
  then show ?thesis
    by (simp only: sublist_appendI)
qed

lemma modality_message_old_value: "sublist old (modality_message old new)"
proof -
  have "modality_message old new =
      (''Incorrect Modality found.'' @ [tab] @ ''Modality changed from '' @ [dquote])
        @ old @ ([dquote] @ '' to '' @ [dquote] @ new @ [dquote])"
    by (simp add: modality_message_def)
  then show ?thesis
    by (simp only: sublist_appendI)
qed

lemma address_message_old_value: "sublist address (address_message address)"
proof -
  have "address_message address =
      (''Mismatched Institution Addresses Suspected.'' @ [tab] @ ''Address: '' @ [dquote])
        @ address @ ([dquote] @ '' Replaced with blank string.'')"
    by (simp add: address_message_def)
  then show ?thesis
    by (simp only: sublist_appendI)
qed

section \<open>Properties of the Loader and the Scanner\<close>

text \<open>
  C6. When the bytes of the file do not decode (\<^verbatim>\<open>dcmread\<close> raises
  \<^verbatim>\<open>InvalidDicomError\<close>), the Loader passes exactly one message to the Status Sink,
  which starts with the file's name, and returns \<^verbatim>\<open>None\<close> without raising. When
  reading the file fails in any other way, the error is raised to the caller: nothing is
  returned, and no message is passed.
\<close>

theorem load_header_failures:
  "(dcmread f = Inl InvalidDicomError \<longrightarrow>
      load_header f =
        ([node_name f @ '' did not contain valid DICOM data.  Skipped.''], Inr None))
   \<and> (dcmread g = Inl e \<and> e \<noteq> InvalidDicomError \<longrightarrow> load_header g = ([], Inl e))"
  by (simp add: load_header_def)

theorem load_header_failures_witness:
  "load_header (File ''notes.txt'' (Inl InvalidDicomError)) =
     ([''notes.txt did not contain valid DICOM data.  Skipped.''], Inr None)
   \<and> load_header (File ''locked.dcm'' (Inl PermissionError)) = ([], Inl PermissionError)"
  using load_header_failures [of "File ''notes.txt'' (Inl InvalidDicomError)"
      "File ''locked.dcm'' (Inl PermissionError)" PermissionError]
  by simp

text \<open>
  C10. A file that decodes to a dataset with no data element is dropped by the Scanner
  without a skip message. The Loader returns the empty dataset, not \<^verbatim>\<open>None\<close>, and
  passes no message; the Scanner passes the \<^verbatim>\<open>Checking file\<close> line, yields nothing,
  and goes on with the entries after the file.
\<close>

theorem empty_dataset_dropped_silently:
  assumes "is_file f" and "dcmread f = Inr []"
  shows "load_header f = ([], Inr (Some []))
    \<and> scan_entries (f # rest) = Emit (''Checking file '' @ node_name f) # scan_entries rest"
  using assms by (simp add: load_header_def)

theorem empty_dataset_dropped_silently_witness:
  "get_dicom_images
     (Dir ''in'' [File ''empty.dcm'' (Inr []), File ''notes.txt'' (Inl InvalidDicomError)]) True
   = [Emit ''Checking file empty.dcm'', Emit ''Checking file notes.txt'',
      Emit ''notes.txt did not contain valid DICOM data.  Skipped.'']"
  using empty_dataset_dropped_silently [of "File ''empty.dcm'' (Inr [])"
      "[File ''notes.txt'' (Inl InvalidDicomError)]"]
  by (simp add: get_dicom_images_def glob_def load_header_def)

text \<open>
  C5. With \<^verbatim>\<open>include_subdirectories\<close> false the Scanner takes the entries of the
  directory that match \<^verbatim>\<open>*.*\<close>. A top-level file whose name has no dot, here
  \<^verbatim>\<open>IM0001\<close>, is not among them: no \<^verbatim>\<open>Checking file\<close> message is passed for it and
  the Loader is not called on it. With subdirectories included the same file is checked
  and yielded.
\<close>

theorem top_level_file_without_dot_not_scanned:
  "get_dicom_images
     (Dir ''in'' [File ''IM0001''
        (Inr [(''Modality'', Text ''CT''), (''SOPInstanceUID'', Text ''1.2.3'')])])
     False = []
   \<and> get_dicom_images
     (Dir ''in'' [File ''IM0001''
        (Inr [(''Modality'', Text ''CT''), (''SOPInstanceUID'', Text ''1.2.3'')])])
     True =
     [Emit ''Checking file IM0001'',
      Yield [(''Modality'', Text ''CT''), (''SOPInstanceUID'', Text ''1.2.3'')]]"
  by (simp add: get_dicom_images_def glob_def load_header_def)

section \<open>Properties of the repair rules\<close>




lemma clear_invalid_elements_frame:
  "clear_invalid_elements names msgs ds = (msgs', Inr (Some ds')) \<Longrightarrow>
   k \<notin> set names \<Longrightarrow> map_of ds' k = map_of ds k"
proof (induction names arbitrary: msgs ds)
  case Nil
  then show ?case by simp
next
  case (Cons name names)
  then show ?case
    by (auto simp: update_conv' split: option.splits elem_value.splits if_splits)
qed

lemma fix_invalid_characters_frame:
  "snd (fix_invalid_characters (Some ds)) = Inr (Some ds') \<Longrightarrow>
   k \<noteq> ''BodyPartExamined'' \<Longrightarrow> k \<noteq> ''OtherPatientIDs'' \<Longrightarrow>
   map_of ds' k = map_of ds k"
  using clear_invalid_elements_frame
    [of "[''BodyPartExamined'', ''OtherPatientIDs'']" "[]" ds
      "fst (fix_invalid_characters (Some ds))" ds' k]
  by (simp add: fix_invalid_characters_def prod_eq_iff)

lemma fix_incorrect_modality_frame:
  "snd (fix_incorrect_modality (Some ds)) = Inr (Some ds') \<Longrightarrow>
   k \<noteq> ''Modality'' \<Longrightarrow> map_of ds' k = map_of ds k"
  by (auto simp: fix_incorrect_modality_def update_conv' split: option.splits if_splits)

lemma fix_incorrect_address_frame:
  "snd (fix_incorrect_address (Some ds)) = Inr (Some ds') \<Longrightarrow>
   k \<noteq> ''InstitutionAddress'' \<Longrightarrow> map_of ds' k = map_of ds k"
  by (auto simp: fix_incorrect_address_def update_conv' split: option.splits if_splits)

text \<open>
  C9. Whenever a rule returns a dataset, every element other than the rule's own targets
  is in the returned dataset what it was in the input, present with the same value or
  absent: \<^verbatim>\<open>BodyPartExamined\<close> and \<^verbatim>\<open>OtherPatientIDs\<close> for the Invalid Character
  Cleanup, \<^verbatim>\<open>Modality\<close> for the Modality Correction, \<^verbatim>\<open>InstitutionAddress\<close> for the
  Mismatched Address Cleanup.
\<close>

theorem repair_rules_frame:
  "(snd (fix_invalid_characters (Some ds)) = Inr (Some ds') \<and>
      k \<noteq> ''BodyPartExamined'' \<and> k \<noteq> ''OtherPatientIDs'' \<longrightarrow> map_of ds' k = map_of ds k)
   \<and> (snd (fix_incorrect_modality (Some ds)) = Inr (Some ds') \<and> k \<noteq> ''Modality''
        \<longrightarrow> map_of ds' k = map_of ds k)
   \<and> (snd (fix_incorrect_address (Some ds)) = Inr (Some ds') \<and> k \<noteq> ''InstitutionAddress''
        \<longrightarrow> map_of ds' k = map_of ds k)"
  using fix_invalid_characters_frame fix_incorrect_modality_frame fix_incorrect_address_frame
  by blast

theorem repair_rules_frame_witness:
  "snd (fix_invalid_characters
          (Some [(''Modality'', Text ''NM''), (''KVP'', Text ''120''),
                 (''BodyPartExamined'', Text ''/x''),
                 (''InstitutionAddress'', Text ''1 Mississauga Rd'')]))
     = Inr (Some [(''Modality'', Text ''NM''), (''KVP'', Text ''120''),
                 (''BodyPartExamined'', Text ''''),
                 (''InstitutionAddress'', Text ''1 Mississauga Rd'')])
   \<and> snd (fix_incorrect_modality
          (Some [(''Modality'', Text ''NM''), (''KVP'', Text ''120''),
                 (''BodyPartExamined'', Text ''/x''),
                 (''InstitutionAddress'', Text ''1 Mississauga Rd'')]))
     = Inr (Some [(''Modality'', Text ''CT''), (''KVP'', Text ''120''),
                 (''BodyPartExamined'', Text ''/x''),
                 (''InstitutionAddress'', Text ''1 Mississauga Rd'')])
   \<and> snd (fix_incorrect_address
          (Some [(''Modality'', Text ''NM''), (''KVP'', Text ''120''),
                 (''BodyPartExamined'', Text ''/x''),
                 (''InstitutionAddress'', Text ''1 Mississauga Rd'')]))
     = Inr (Some [(''Modality'', Text ''NM''), (''KVP'', Text ''120''),
                 (''BodyPartExamined'', Text ''/x''),
                 (''InstitutionAddress'', Text '''')])
   \<and> map_of [(''Modality'', Text ''NM''), (''KVP'', Text ''120''),
              (''BodyPartExamined'', Text ''''),
              (''InstitutionAddress'', Text ''1 Mississauga Rd'')] ''KVP''
         = Some (Text ''120'')
   \<and> map_of [(''Modality'', Text ''CT''), (''KVP'', Text ''120''),
              (''BodyPartExamined'', Text ''/x''),
              (''InstitutionAddress'', Text ''1 Mississauga Rd'')] ''InstitutionAddress''
         = Some (Text ''1 Mississauga Rd'')
   \<and> map_of [(''Modality'', Text ''NM''), (''KVP'', Text ''120''),
              (''BodyPartExamined'', Text ''/x''),
              (''InstitutionAddress'', Text '''')] ''BodyPartExamined''
         = Some (Text ''/x'')"
proof -
  let ?D = "[(''Modality'', Text ''NM''), (''KVP'', Text ''120''),
             (''BodyPartExamined'', Text ''/x''),
             (''InstitutionAddress'', Text ''1 Mississauga Rd'')]"
  let ?D1 = "[(''Modality'', Text ''NM''), (''KVP'', Text ''120''),
              (''BodyPartExamined'', Text ''''),
              (''InstitutionAddress'', Text ''1 Mississauga Rd'')]"
  let ?D2 = "[(''Modality'', Text ''CT''), (''KVP'', Text ''120''),
              (''BodyPartExamined'', Text ''/x''),
              (''InstitutionAddress'', Text ''1 Mississauga Rd'')]"
  let ?D3 = "[(''Modality'', Text ''NM''), (''KVP'', Text ''120''),
              (''BodyPartExamined'', Text ''/x''),
              (''InstitutionAddress'', Text '''')]"
  have h1: "snd (fix_invalid_characters (Some ?D)) = Inr (Some ?D1)"
    by (simp add: fix_invalid_characters_def)
  have h2: "snd (fix_incorrect_modality (Some ?D)) = Inr (Some ?D2)"
    by (simp add: fix_incorrect_modality_def)
  have h3: "snd (fix_incorrect_address (Some ?D)) = Inr (Some ?D3)"
    by (simp add: fix_incorrect_address_def)
  from repair_rules_frame [of ?D ?D1 "''KVP''"] h1
  have c1: "map_of ?D1 ''KVP'' = map_of ?D ''KVP''"
    by simp
  from repair_rules_frame [of ?D ?D2 "''InstitutionAddress''"] h2
  have c2: "map_of ?D2 ''InstitutionAddress'' = map_of ?D ''InstitutionAddress''"
    by simp
  from repair_rules_frame [of ?D ?D3 "''BodyPartExamined''"] h3
  have c3: "map_of ?D3 ''BodyPartExamined'' = map_of ?D ''BodyPartExamined''"
    by simp
  from h1 h2 h3 c1 c2 c3 show ?thesis
    by simp
qed

text \<open>
  C4, as stated, fails: the test \<^verbatim>\<open>'Mississauga' in address\<close> compares characters as
  they are. An address that holds the name in upper case is left as it is, and no
  message is passed.
\<close>

theorem address_in_other_casing_kept:
  "fix_incorrect_address (Some [(''InstitutionAddress'', Text ''123 MISSISSAUGA RD'')]) =
     ([], Inr (Some [(''InstitutionAddress'', Text ''123 MISSISSAUGA RD'')]))"
  by (simp add: fix_incorrect_address_def)

text \<open>
  C4, amended. When \<^verbatim>\<open>InstitutionAddress\<close> is present and its value, a string,
  contains \<^verbatim>\<open>Mississauga\<close> in exactly this casing, at any position, the rule passes one
  message, which quotes the old value, and returns the dataset with the empty string in
  that element. When the element is absent or its value is a string that does not
  contain \<^verbatim>\<open>Mississauga\<close> in this casing, the rule returns the dataset as it is and
  passes no message. On every dataset it returns a dataset, never \<^verbatim>\<open>None\<close>.
\<close>

theorem fix_incorrect_address_spec:
  "(map_of ds ''InstitutionAddress'' = Some (Text address) \<and> sublist ''Mississauga'' address
      \<longrightarrow>
      (\<exists>ds'. fix_incorrect_address (Some ds) = ([address_message address], Inr (Some ds'))
         \<and> map_of ds' ''InstitutionAddress'' = Some (Text '''')
         \<and> sublist address (address_message address)))
   \<and> (text_or_absent ds ''InstitutionAddress''
        \<and> \<not> (\<exists>a. map_of ds ''InstitutionAddress'' = Some (Text a) \<and> sublist ''Mississauga'' a)
      \<longrightarrow> fix_incorrect_address (Some ds) = ([], Inr (Some ds)))
   \<and> (\<exists>ds'. snd (fix_incorrect_address (Some ds)) = Inr (Some ds'))"
  by (auto simp: fix_incorrect_address_def text_or_absent_def str_in_sublist update_conv'
      address_message_old_value split: option.splits elem_value.splits)

theorem fix_incorrect_address_spec_witness:
  "fix_incorrect_address
     (Some [(''Modality'', Text ''CT''), (''InstitutionAddress'', Text ''123 Mississauga Rd'')])
     = ([address_message ''123 Mississauga Rd''],
        Inr (Some [(''Modality'', Text ''CT''), (''InstitutionAddress'', Text '''')]))
   \<and> fix_incorrect_address
     (Some [(''Modality'', Text ''CT''), (''InstitutionAddress'', Text ''610 University Ave'')])
     = ([], Inr (Some [(''Modality'', Text ''CT''),
                       (''InstitutionAddress'', Text ''610 University Ave'')]))"
  using
    fix_incorrect_address_spec [of "[(''Modality'', Text ''CT''),
        (''InstitutionAddress'', Text ''123 Mississauga Rd'')]" "''123 Mississauga Rd''"]
    fix_incorrect_address_spec [of "[(''Modality'', Text ''CT''),
        (''InstitutionAddress'', Text ''610 University Ave'')]"]
  by (simp add: fix_incorrect_address_def)

text \<open>
  C3, as stated, fails: on a dataset that holds \<^verbatim>\<open>KVP\<close> and
  \<^verbatim>\<open>RadiopharmaceuticalInformationSequence\<close> and whose \<^verbatim>\<open>Modality\<close> is
  \<^verbatim>\<open>PT\<close>, the first check writes \<^verbatim>\<open>CT\<close>, the second tests the value read on entry
  and writes nothing, and the rule returns the dataset with \<^verbatim>\<open>Modality\<close> \<^verbatim>\<open>CT\<close>.
\<close>

theorem modality_pt_with_both_indicators_becomes_ct:
  "fix_incorrect_modality
     (Some [(''Modality'', Text ''PT''), (''KVP'', Text ''120''),
            (''RadiopharmaceuticalInformationSequence'', Text ''item'')]) =
     ([modality_message ''PT'' ''CT''],
      Inr (Some [(''Modality'', Text ''CT''), (''KVP'', Text ''120''),
                 (''RadiopharmaceuticalInformationSequence'', Text ''item'')]))"
  by (simp add: fix_incorrect_modality_def)

text \<open>
  C3, amended. On a dataset that holds \<^verbatim>\<open>Modality\<close>, \<^verbatim>\<open>KVP\<close> and
  \<^verbatim>\<open>RadiopharmaceuticalInformationSequence\<close> and whose \<^verbatim>\<open>Modality\<close> value on entry
  does not contain \<^verbatim>\<open>PT\<close>, the rule returns the dataset with \<^verbatim>\<open>Modality\<close> exactly
  \<^verbatim>\<open>PT\<close>. It passes the message of the correction to \<^verbatim>\<open>PT\<close>, and before it, when
  the value on entry does not contain \<^verbatim>\<open>CT\<close> either, so that both checks fire, the
  message of the correction to \<^verbatim>\<open>CT\<close>; both messages quote the value on entry.
\<close>

theorem fix_incorrect_modality_both_indicators:
  assumes "map_of ds ''Modality'' = Some (Text modality)"
    and "map_of ds ''KVP'' \<noteq> None"
    and "map_of ds ''RadiopharmaceuticalInformationSequence'' \<noteq> None"
    and "\<not> sublist ''PT'' modality"
  shows "\<exists>ds'. fix_incorrect_modality (Some ds) =
           ((if sublist ''CT'' modality then [] else [modality_message modality ''CT''])
              @ [modality_message modality ''PT''],
            Inr (Some ds'))
         \<and> map_of ds' ''Modality'' = Some (Text ''PT'')"
  using assms
  by (auto simp: fix_incorrect_modality_def str_in_sublist update_conv')

theorem fix_incorrect_modality_both_indicators_witness:
  "fix_incorrect_modality
     (Some [(''Modality'', Text ''NM''), (''KVP'', Text ''120''),
            (''RadiopharmaceuticalInformationSequence'', Text ''item'')]) =
     ([modality_message ''NM'' ''CT'', modality_message ''NM'' ''PT''],
      Inr (Some [(''Modality'', Text ''PT''), (''KVP'', Text ''120''),
                 (''RadiopharmaceuticalInformationSequence'', Text ''item'')]))"
  using fix_incorrect_modality_both_indicators [of "[(''Modality'', Text ''NM''),
      (''KVP'', Text ''120''), (''RadiopharmaceuticalInformationSequence'', Text ''item'')]"
      "''NM''"]
  by (simp add: fix_incorrect_modality_def)

section \<open>Properties of the pipeline\<close>

text \<open>
  C1. The claim is that a dataset on which a rule returns \<^verbatim>\<open>None\<close> is dropped, with no
  later rule called on it, and that the pipeline goes on with the next dataset. In
  \<^verbatim>\<open>perform_repairs\<close> the inner loop does not stop on \<^verbatim>\<open>None\<close>. With the rules
  \<^verbatim>\<open>[fix_incorrect_modality, fix_incorrect_address]\<close> and a first file whose
  dataset has no \<^verbatim>\<open>Modality\<close>, the first rule passes the rejection message and returns
  \<^verbatim>\<open>None\<close>, the second rule is called on \<^verbatim>\<open>None\<close> and raises \<^verbatim>\<open>TypeError\<close>, and
  the run ends there: the second file is never checked and nothing is written. With the
  notebook's own list of rules the same input does not reach the rejection: the dataset
  returned by the first rule is saved at once, and building its file name raises
  \<^verbatim>\<open>KeyError\<close>. The output directory is not under the input directory.
\<close>

theorem discard_does_not_stop_the_rules:
  "fix_incorrect_modality (Some [(''SOPInstanceUID'', Text ''1.2.3'')]) =
     ([''Modality element not found. File not used.''], Inr None)
   \<and> perform_repairs
       \<lparr>input_tree =
          Dir ''in'' [File ''a.dcm'' (Inr [(''SOPInstanceUID'', Text ''1.2.3'')]),
                      File ''b.dcm'' (Inr [(''Modality'', Text ''CT''),
                                           (''SOPInstanceUID'', Text ''1.2.4'')])],
        elsewhere = []\<rparr>
       Elsewhere [fix_incorrect_modality, fix_incorrect_address] =
     \<lparr>messages = [''Checking file a.dcm'', ''Modality element not found. File not used.''],
      files =
        \<lparr>input_tree =
           Dir ''in'' [File ''a.dcm'' (Inr [(''SOPInstanceUID'', Text ''1.2.3'')]),
                       File ''b.dcm'' (Inr [(''Modality'', Text ''CT''),
                                            (''SOPInstanceUID'', Text ''1.2.4'')])],
         elsewhere = []\<rparr>,
      raised = Some TypeError\<rparr>
   \<and> perform_repairs
       \<lparr>input_tree =
          Dir ''in'' [File ''a.dcm'' (Inr [(''SOPInstanceUID'', Text ''1.2.3'')]),
                      File ''b.dcm'' (Inr [(''Modality'', Text ''CT''),
                                           (''SOPInstanceUID'', Text ''1.2.4'')])],
        elsewhere = []\<rparr>
       Elsewhere repair_methods =
     \<lparr>messages = [''Checking file a.dcm''],
      files =
        \<lparr>input_tree =
           Dir ''in'' [File ''a.dcm'' (Inr [(''SOPInstanceUID'', Text ''1.2.3'')]),
                       File ''b.dcm'' (Inr [(''Modality'', Text ''CT''),
                                            (''SOPInstanceUID'', Text ''1.2.4'')])],
         elsewhere = []\<rparr>,
      raised = Some KeyError\<rparr>"
  by (simp add: perform_repairs_def listing_def and_then_def load_header_def
      repair_methods_def fix_invalid_characters_def
      fix_incorrect_modality_def fix_incorrect_address_def save_dicom_dataset_def
      build_dicom_file_name_def)

text \<open>
  C2. The claim is that the Output Writer is called once for a dataset that survives
  all rules, with the final dataset. In \<^verbatim>\<open>perform_repairs\<close> the call of
  \<^verbatim>\<open>save_dicom_dataset\<close> is in the body of the loop over the rules, so the dataset is
  saved after each rule. A dataset with \<^verbatim>\<open>Modality\<close> \<^verbatim>\<open>NM\<close> and \<^verbatim>\<open>KVP\<close> is saved
  after the first rule under the name built from \<^verbatim>\<open>NM\<close>, with \<^verbatim>\<open>Modality\<close> still
  \<^verbatim>\<open>NM\<close>, and after the second and third rule under the name built from \<^verbatim>\<open>CT\<close>:
  the run leaves two files for the one instance. The output directory is not under the
  input directory.
\<close>

theorem dataset_saved_after_each_rule:
  "perform_repairs
     \<lparr>input_tree =
        Dir ''in'' [File ''a.dcm''
          (Inr [(''Modality'', Text ''NM''), (''SOPInstanceUID'', Text ''1.2.3''),
                (''KVP'', Text ''120'')])],
      elsewhere = []\<rparr>
     Elsewhere repair_methods =
   \<lparr>messages = [''Checking file a.dcm'', modality_message ''NM'' ''CT''],
    files =
      \<lparr>input_tree =
         Dir ''in'' [File ''a.dcm''
           (Inr [(''Modality'', Text ''NM''), (''SOPInstanceUID'', Text ''1.2.3''),
                 (''KVP'', Text ''120'')])],
       elsewhere =
         [(''NM1.2.3.dcm'',
             [(''Modality'', Text ''NM''), (''SOPInstanceUID'', Text ''1.2.3''),
              (''KVP'', Text ''120'')]),
          (''CT1.2.3.dcm'',
             [(''Modality'', Text ''CT''), (''SOPInstanceUID'', Text ''1.2.3''),
              (''KVP'', Text ''120'')])]\<rparr>,
    raised = None\<rparr>"
  by (simp add: perform_repairs_def listing_def and_then_def load_header_def
      repair_methods_def fix_invalid_characters_def
      fix_incorrect_modality_def fix_incorrect_address_def save_dicom_dataset_def
      build_dicom_file_name_def)

text \<open>
  C8, as stated, fails: the output directory may be the input directory, or a directory
  below it, and then a second run reads what the first has saved. Here the two are the
  same directory. The first run reads \<^verbatim>\<open>a.dcm\<close>, whose \<^verbatim>\<open>Modality\<close> is \<^verbatim>\<open>NM\<close> with
  both indicator elements, and saves it as \<^verbatim>\<open>NM1.dcm\<close> and as \<^verbatim>\<open>PT1.dcm\<close>. The
  second run reads those two files as well: from \<^verbatim>\<open>PT1.dcm\<close> the Modality Correction
  makes \<^verbatim>\<open>CT\<close>, and the run saves a file \<^verbatim>\<open>CT1.dcm\<close> that the first run has not
  left.
\<close>

theorem second_run_reads_first_output:
  "input_tree (files (perform_repairs
     \<lparr>input_tree =
        Dir ''in'' [File ''a.dcm''
          (Inr [(''Modality'', Text ''NM''), (''SOPInstanceUID'', Text ''1''),
                (''KVP'', Text ''120''),
                (''RadiopharmaceuticalInformationSequence'', Text ''item'')])],
      elsewhere = []\<rparr>
     (Under []) repair_methods))
   = Dir ''in''
       [File ''a.dcm''
          (Inr [(''Modality'', Text ''NM''), (''SOPInstanceUID'', Text ''1''),
                (''KVP'', Text ''120''),
                (''RadiopharmaceuticalInformationSequence'', Text ''item'')]),
        File ''NM1.dcm''
          (Inr [(''Modality'', Text ''NM''), (''SOPInstanceUID'', Text ''1''),
                (''KVP'', Text ''120''),
                (''RadiopharmaceuticalInformationSequence'', Text ''item'')]),
        File ''PT1.dcm''
          (Inr [(''Modality'', Text ''PT''), (''SOPInstanceUID'', Text ''1''),
                (''KVP'', Text ''120''),
                (''RadiopharmaceuticalInformationSequence'', Text ''item'')])]
   \<and> input_tree (files (perform_repairs
       (files (perform_repairs
          \<lparr>input_tree =
             Dir ''in'' [File ''a.dcm''
               (Inr [(''Modality'', Text ''NM''), (''SOPInstanceUID'', Text ''1''),
                     (''KVP'', Text ''120''),
                     (''RadiopharmaceuticalInformationSequence'', Text ''item'')])],
           elsewhere = []\<rparr>
          (Under []) repair_methods))
       (Under []) repair_methods))
   = Dir ''in''
       [File ''a.dcm''
          (Inr [(''Modality'', Text ''NM''), (''SOPInstanceUID'', Text ''1''),
                (''KVP'', Text ''120''),
                (''RadiopharmaceuticalInformationSequence'', Text ''item'')]),
        File ''NM1.dcm''
          (Inr [(''Modality'', Text ''NM''), (''SOPInstanceUID'', Text ''1''),
                (''KVP'', Text ''120''),
                (''RadiopharmaceuticalInformationSequence'', Text ''item'')]),
        File ''PT1.dcm''
          (Inr [(''Modality'', Text ''PT''), (''SOPInstanceUID'', Text ''1''),
                (''KVP'', Text ''120''),
                (''RadiopharmaceuticalInformationSequence'', Text ''item'')]),
        File ''CT1.dcm''
          (Inr [(''Modality'', Text ''CT''), (''SOPInstanceUID'', Text ''1''),
                (''KVP'', Text ''120''),
                (''RadiopharmaceuticalInformationSequence'', Text ''item'')])]"
proof -
  let ?a = "[(''Modality'', Text ''NM''), (''SOPInstanceUID'', Text ''1''),
             (''KVP'', Text ''120''),
             (''RadiopharmaceuticalInformationSequence'', Text ''item'')]"
  let ?pt = "[(''Modality'', Text ''PT''), (''SOPInstanceUID'', Text ''1''),
              (''KVP'', Text ''120''),
              (''RadiopharmaceuticalInformationSequence'', Text ''item'')]"
  have first: "files (perform_repairs
        \<lparr>input_tree = Dir ''in'' [File ''a.dcm'' (Inr ?a)], elsewhere = []\<rparr>
        (Under []) repair_methods)
      = \<lparr>input_tree = Dir ''in'' [File ''a.dcm'' (Inr ?a), File ''NM1.dcm'' (Inr ?a),
                                   File ''PT1.dcm'' (Inr ?pt)],
         elsewhere = []\<rparr>"
    by (simp add: perform_repairs_def listing_def and_then_def load_header_def
        repair_methods_def fix_invalid_characters_def
        fix_incorrect_modality_def fix_incorrect_address_def save_dicom_dataset_def
        build_dicom_file_name_def)
  show ?thesis
    unfolding first
    by (simp add: perform_repairs_def listing_def and_then_def load_header_def
        repair_methods_def fix_invalid_characters_def
        fix_incorrect_modality_def fix_incorrect_address_def save_dicom_dataset_def
        build_dicom_file_name_def)
qed

text \<open>
  The same happens with the output directory below the input directory, when the walk
  comes to it before it comes to the file: the first run leaves \<^verbatim>\<open>NM1.dcm\<close> and
  \<^verbatim>\<open>PT1.dcm\<close> in \<^verbatim>\<open>Output\<close>, the second adds \<^verbatim>\<open>CT1.dcm\<close>.
\<close>

lemma second_run_reads_output_below_input:
  "entries_at (input_tree (files (perform_repairs
     \<lparr>input_tree =
        Dir ''in'' [Dir ''Output'' [],
          Dir ''data'' [File ''a.dcm''
            (Inr [(''Modality'', Text ''NM''), (''SOPInstanceUID'', Text ''1''),
                  (''KVP'', Text ''120''),
                  (''RadiopharmaceuticalInformationSequence'', Text ''item'')])]],
      elsewhere = []\<rparr>
     (Under [''Output'']) repair_methods))) [''Output'']
   = Some
       [File ''NM1.dcm''
          (Inr [(''Modality'', Text ''NM''), (''SOPInstanceUID'', Text ''1''),
                (''KVP'', Text ''120''),
                (''RadiopharmaceuticalInformationSequence'', Text ''item'')]),
        File ''PT1.dcm''
          (Inr [(''Modality'', Text ''PT''), (''SOPInstanceUID'', Text ''1''),
                (''KVP'', Text ''120''),
                (''RadiopharmaceuticalInformationSequence'', Text ''item'')])]
   \<and> entries_at (input_tree (files (perform_repairs
       (files (perform_repairs
          \<lparr>input_tree =
             Dir ''in'' [Dir ''Output'' [],
               Dir ''data'' [File ''a.dcm''
                 (Inr [(''Modality'', Text ''NM''), (''SOPInstanceUID'', Text ''1''),
                       (''KVP'', Text ''120''),
                       (''RadiopharmaceuticalInformationSequence'', Text ''item'')])]],
           elsewhere = []\<rparr>
          (Under [''Output'']) repair_methods))
       (Under [''Output'']) repair_methods))) [''Output'']
   = Some
       [File ''NM1.dcm''
          (Inr [(''Modality'', Text ''NM''), (''SOPInstanceUID'', Text ''1''),
                (''KVP'', Text ''120''),
                (''RadiopharmaceuticalInformationSequence'', Text ''item'')]),
        File ''PT1.dcm''
          (Inr [(''Modality'', Text ''PT''), (''SOPInstanceUID'', Text ''1''),
                (''KVP'', Text ''120''),
                (''RadiopharmaceuticalInformationSequence'', Text ''item'')]),
        File ''CT1.dcm''
          (Inr [(''Modality'', Text ''CT''), (''SOPInstanceUID'', Text ''1''),
                (''KVP'', Text ''120''),
                (''RadiopharmaceuticalInformationSequence'', Text ''item'')])]"
proof -
  let ?a = "[(''Modality'', Text ''NM''), (''SOPInstanceUID'', Text ''1''),
             (''KVP'', Text ''120''),
             (''RadiopharmaceuticalInformationSequence'', Text ''item'')]"
  let ?pt = "[(''Modality'', Text ''PT''), (''SOPInstanceUID'', Text ''1''),
              (''KVP'', Text ''120''),
              (''RadiopharmaceuticalInformationSequence'', Text ''item'')]"
  have first: "files (perform_repairs
        \<lparr>input_tree = Dir ''in'' [Dir ''Output'' [], Dir ''data'' [File ''a.dcm'' (Inr ?a)]],
         elsewhere = []\<rparr>
        (Under [''Output'']) repair_methods)
      = \<lparr>input_tree =
           Dir ''in'' [Dir ''Output'' [File ''NM1.dcm'' (Inr ?a), File ''PT1.dcm'' (Inr ?pt)],
                       Dir ''data'' [File ''a.dcm'' (Inr ?a)]],
         elsewhere = []\<rparr>"
    by (simp add: perform_repairs_def listing_def and_then_def load_header_def
        repair_methods_def fix_invalid_characters_def
        fix_incorrect_modality_def fix_incorrect_address_def save_dicom_dataset_def
        build_dicom_file_name_def)
  show ?thesis
    unfolding first
    by (simp add: perform_repairs_def listing_def and_then_def load_header_def
        repair_methods_def fix_invalid_characters_def
        fix_incorrect_modality_def fix_incorrect_address_def save_dicom_dataset_def
        build_dicom_file_name_def)
qed

subsection \<open>With the output elsewhere, a run does not depend on what the output holds\<close>

lemma same_writes_refl: "same_writes d d' d d'"
  by (simp add: same_writes_def)

lemma same_writes_update:
  assumes "same_writes (AList.update n v d) (AList.update n v d') out out'"
  shows "same_writes d d' out out'"
  unfolding same_writes_def
proof (intro allI)
  fix k
  from assms have "map_of out k = map_of out' k
      \<or> (map_of out k = map_of (AList.update n v d) k
           \<and> map_of out' k = map_of (AList.update n v d') k)"
    by (simp add: same_writes_def)
  then show "map_of out k = map_of out' k
      \<or> (map_of out k = map_of d k \<and> map_of out' k = map_of d' k)"
    by (cases "k = n") (auto simp: update_conv')
qed

lemma same_writes_trans:
  "same_writes d d' e e' \<Longrightarrow> same_writes e e' out out' \<Longrightarrow> same_writes d d' out out'"
  unfolding same_writes_def by metis

lemma same_writes_idem: "same_writes d d' d' out \<Longrightarrow> map_of out = map_of d'"
  unfolding same_writes_def by (rule ext) metis

lemma same_effect_stop:
  "same_effect fs fs' \<lparr>messages = m, files = fs, raised = x\<rparr>
     \<lparr>messages = m, files = fs', raised = x\<rparr>"
  by (simp add: same_effect_def same_writes_refl)

lemma same_effect_messages:
  "same_effect fs fs' r r' \<Longrightarrow>
   same_effect fs fs' (r\<lparr>messages := m @ messages r\<rparr>) (r'\<lparr>messages := m @ messages r'\<rparr>)"
  by (simp add: same_effect_def)

lemma same_effect_update:
  assumes "same_effect (fs\<lparr>elsewhere := AList.update n v (elsewhere fs)\<rparr>)
             (fs'\<lparr>elsewhere := AList.update n v (elsewhere fs')\<rparr>) r r'"
  shows "same_effect fs fs' r r'"
  using assms by (auto simp: same_effect_def intro: same_writes_update)

lemma same_effect_and_then:
  assumes first: "same_effect fs fs' r1 r1'"
    and trees: "input_tree fs = input_tree fs'"
    and rest: "\<And>g g'. input_tree g = input_tree g' \<Longrightarrow> same_effect g g' (nxt g) (nxt g')"
  shows "same_effect fs fs' (and_then r1 nxt) (and_then r1' nxt)"
proof (cases "raised r1 = None")
  case False
  with first show ?thesis by (simp add: and_then_def same_effect_def)
next
  case True
  with first have none': "raised r1' = None" by (simp add: same_effect_def)
  from first trees have "input_tree (files r1) = input_tree (files r1')"
    by (simp add: same_effect_def)
  then have step: "same_effect (files r1) (files r1') (nxt (files r1)) (nxt (files r1'))"
    by (rule rest)
  from first step have "same_writes (elsewhere fs) (elsewhere fs')
      (elsewhere (files (nxt (files r1)))) (elsewhere (files (nxt (files r1'))))"
    unfolding same_effect_def by (blast intro: same_writes_trans)
  with first step True none' show ?thesis
    by (simp add: and_then_def same_effect_def Let_def)
qed

lemma save_dicom_dataset_elsewhere:
  "(\<exists>e. save_dicom_dataset ds Elsewhere fs = Inl e \<and> save_dicom_dataset ds Elsewhere fs' = Inl e)
   \<or> (\<exists>n. save_dicom_dataset ds Elsewhere fs
             = Inr (fs\<lparr>elsewhere := AList.update n ds (elsewhere fs)\<rparr>)
          \<and> save_dicom_dataset ds Elsewhere fs'
             = Inr (fs'\<lparr>elsewhere := AList.update n ds (elsewhere fs')\<rparr>))"
  by (cases "build_dicom_file_name ds") (auto simp: save_dicom_dataset_def)

lemma apply_repairs_elsewhere:
  "input_tree fs = input_tree fs' \<Longrightarrow>
   same_effect fs fs' (apply_repairs rules ds Elsewhere fs) (apply_repairs rules ds Elsewhere fs')"
proof (induction rules arbitrary: ds fs fs')
  case Nil
  show ?case by (simp add: same_effect_stop)
next
  case (Cons r rules)
  obtain msgs res where r: "r ds = (msgs, res)" by (cases "r ds")
  show ?case
  proof (cases res)
    case (Inl e)
    with r show ?thesis by (simp add: same_effect_stop)
  next
    case (Inr ds1)
    show ?thesis
    proof (cases "truthy ds1")
      case False
      with r Inr Cons.IH [OF Cons.prems, of ds1] show ?thesis
        by (simp add: Let_def same_effect_messages)
    next
      case True
      from save_dicom_dataset_elsewhere [of "the ds1" fs fs'] show ?thesis
      proof (elim disjE exE conjE)
        fix e
        assume "save_dicom_dataset (the ds1) Elsewhere fs = Inl e"
          and "save_dicom_dataset (the ds1) Elsewhere fs' = Inl e"
        with r Inr True show ?thesis by (simp add: same_effect_stop)
      next
        fix n
        let ?g = "fs\<lparr>elsewhere := AList.update n (the ds1) (elsewhere fs)\<rparr>"
        let ?g' = "fs'\<lparr>elsewhere := AList.update n (the ds1) (elsewhere fs')\<rparr>"
        assume s: "save_dicom_dataset (the ds1) Elsewhere fs = Inr ?g"
          "save_dicom_dataset (the ds1) Elsewhere fs' = Inr ?g'"
        from Cons.prems have "input_tree ?g = input_tree ?g'" by simp
        then have "same_effect ?g ?g' (apply_repairs rules ds1 Elsewhere ?g)
            (apply_repairs rules ds1 Elsewhere ?g')"
          by (rule Cons.IH)
        then have "same_effect fs fs' (apply_repairs rules ds1 Elsewhere ?g)
            (apply_repairs rules ds1 Elsewhere ?g')"
          by (rule same_effect_update)
        with r Inr True s show ?thesis
          by (simp add: Let_def same_effect_messages)
      qed
    qed
  qed
qed

lemma repair_each_elsewhere:
  "input_tree fs = input_tree fs' \<Longrightarrow>
   same_effect fs fs' (repair_each evs rules Elsewhere fs) (repair_each evs rules Elsewhere fs')"
proof (induction evs arbitrary: fs fs')
  case Nil
  show ?case by (simp add: same_effect_stop)
next
  case (Cons ev evs)
  show ?case
  proof (cases ev)
    case (Emit m)
    from Cons.IH [OF Cons.prems]
    have "same_effect fs fs'
        ((repair_each evs rules Elsewhere fs)
           \<lparr>messages := [m] @ messages (repair_each evs rules Elsewhere fs)\<rparr>)
        ((repair_each evs rules Elsewhere fs')
           \<lparr>messages := [m] @ messages (repair_each evs rules Elsewhere fs')\<rparr>)"
      by (rule same_effect_messages)
    with Emit show ?thesis by (simp add: Let_def)
  next
    case (Abort e)
    then show ?thesis by (simp add: same_effect_stop)
  next
    case (Yield ds)
    have "same_effect fs fs'
        (and_then (apply_repairs rules (Some ds) Elsewhere fs) (repair_each evs rules Elsewhere))
        (and_then (apply_repairs rules (Some ds) Elsewhere fs') (repair_each evs rules Elsewhere))"
      using apply_repairs_elsewhere [OF Cons.prems] Cons.prems Cons.IH
      by (rule same_effect_and_then)
    with Yield show ?thesis by simp
  qed
qed

lemma repair_listed_elsewhere:
  "input_tree fs = input_tree fs' \<Longrightarrow>
   same_effect fs fs' (repair_listed names p rules Elsewhere fs)
     (repair_listed names p rules Elsewhere fs')"
proof (induction names arbitrary: fs fs')
  case Nil
  show ?case by (simp add: same_effect_stop)
next
  case (Cons name names)
  let ?one = "\<lambda>g. case entries_at (input_tree g) p of
          None \<Rightarrow> \<lparr>messages = [], files = g, raised = None\<rparr>
        | Some cs \<Rightarrow>
            (case entry_named name cs of
               None \<Rightarrow> \<lparr>messages = [], files = g, raised = None\<rparr>
             | Some dicom_file \<Rightarrow> repair_each (scan_entries [dicom_file]) rules Elsewhere g)"
  have one: "same_effect fs fs' (?one fs) (?one fs')"
    using Cons.prems
    by (auto simp: same_effect_stop repair_each_elsewhere split: option.splits)
  have "same_effect fs fs' (and_then (?one fs) (repair_listed names p rules Elsewhere))
      (and_then (?one fs') (repair_listed names p rules Elsewhere))"
    using one Cons.prems Cons.IH by (rule same_effect_and_then)
  then show ?case by simp
qed

lemma repair_trees_elsewhere_step:
  assumes each: "\<And>c q g g'. c \<in> set nodes \<Longrightarrow> input_tree g = input_tree g' \<Longrightarrow>
      same_effect g g' (repair_tree c q rules Elsewhere g) (repair_tree c q rules Elsewhere g')"
    and trees: "input_tree fs = input_tree fs'"
  shows "same_effect fs fs' (repair_trees nodes p rules Elsewhere fs)
     (repair_trees nodes p rules Elsewhere fs')"
  using each trees
proof (induction nodes arbitrary: fs fs')
  case Nil
  show ?case by (simp add: same_effect_stop)
next
  case (Cons c nodes)
  have first: "same_effect fs fs' (repair_tree c (p @ [node_name c]) rules Elsewhere fs)
      (repair_tree c (p @ [node_name c]) rules Elsewhere fs')"
    using Cons.prems by simp
  have rest: "\<And>g g'. input_tree g = input_tree g' \<Longrightarrow>
      same_effect g g' (repair_trees nodes p rules Elsewhere g)
        (repair_trees nodes p rules Elsewhere g')"
    using Cons.IH Cons.prems(1) by simp
  have "same_effect fs fs'
      (and_then (repair_tree c (p @ [node_name c]) rules Elsewhere fs)
         (repair_trees nodes p rules Elsewhere))
      (and_then (repair_tree c (p @ [node_name c]) rules Elsewhere fs')
         (repair_trees nodes p rules Elsewhere))"
    using first Cons.prems(2) rest by (rule same_effect_and_then)
  then show ?case by simp
qed

lemma repair_tree_elsewhere:
  "input_tree fs = input_tree fs' \<Longrightarrow>
   same_effect fs fs' (repair_tree node p rules Elsewhere fs)
     (repair_tree node p rules Elsewhere fs')"
proof (induction node arbitrary: p fs fs')
  case (File n r)
  show ?case by (simp add: same_effect_stop)
next
  case (Dir n cs)
  have first: "same_effect fs fs'
      (repair_listed (listing (input_tree fs) p) p rules Elsewhere fs)
      (repair_listed (listing (input_tree fs') p) p rules Elsewhere fs')"
    using repair_listed_elsewhere [OF Dir.prems] Dir.prems by simp
  have rest: "\<And>g g'. input_tree g = input_tree g' \<Longrightarrow>
      same_effect g g' (repair_trees cs p rules Elsewhere g)
        (repair_trees cs p rules Elsewhere g')"
    using Dir.IH by (rule repair_trees_elsewhere_step)
  have "same_effect fs fs'
      (and_then (repair_listed (listing (input_tree fs) p) p rules Elsewhere fs)
         (repair_trees cs p rules Elsewhere))
      (and_then (repair_listed (listing (input_tree fs') p) p rules Elsewhere fs')
         (repair_trees cs p rules Elsewhere))"
    using first Dir.prems rest by (rule same_effect_and_then)
  then show ?case by simp
qed

text \<open>
  C8, amended. Let the output directory be neither the input directory nor a directory
  below it. Run the pipeline, then run it again with the same rules on the file system
  the first run has left. After the second run the output directory holds the same
  files with the same content as after the first: every file the second run writes is
  there already, under the same name and with the same content. Neither run changes
  the input directory, and the second run passes the same messages and ends the same
  way as the first.
\<close>

theorem perform_repairs_idempotent:
  "map_of (elsewhere (files
       (perform_repairs (files (perform_repairs fs Elsewhere rules)) Elsewhere rules)))
     = map_of (elsewhere (files (perform_repairs fs Elsewhere rules)))
   \<and> input_tree (files
       (perform_repairs (files (perform_repairs fs Elsewhere rules)) Elsewhere rules))
     = input_tree fs
   \<and> input_tree (files (perform_repairs fs Elsewhere rules)) = input_tree fs
   \<and> messages (perform_repairs (files (perform_repairs fs Elsewhere rules)) Elsewhere rules)
     = messages (perform_repairs fs Elsewhere rules)
   \<and> raised (perform_repairs (files (perform_repairs fs Elsewhere rules)) Elsewhere rules)
     = raised (perform_repairs fs Elsewhere rules)"
proof -
  let ?r1 = "perform_repairs fs Elsewhere rules"
  have "same_effect fs fs ?r1 ?r1"
    unfolding perform_repairs_def by (rule repair_tree_elsewhere) simp
  then have kept: "input_tree (files ?r1) = input_tree fs"
    by (simp add: same_effect_def)
  then have "same_effect fs (files ?r1)
      (repair_tree (input_tree fs) [] rules Elsewhere fs)
      (repair_tree (input_tree fs) [] rules Elsewhere (files ?r1))"
    by (intro repair_tree_elsewhere) simp
  with kept have "same_effect fs (files ?r1) ?r1 (perform_repairs (files ?r1) Elsewhere rules)"
    by (simp add: perform_repairs_def)
  with kept show ?thesis
    by (auto simp: same_effect_def dest: same_writes_idem)
qed

subsection \<open>With the output elsewhere, the run consumes the generator\<close>

text \<open>
  When nothing is saved under the input directory, the walk that \<open>perform_repairs\<close>
  makes is the consumption, one event after the other, of what \<open>get_dicom_images\<close>
  does on the input directory with subdirectories included.
\<close>

lemma and_then_stop: "and_then \<lparr>messages = [], files = fs, raised = None\<rparr> nxt = nxt fs"
  by (simp add: and_then_def)

lemma and_then_assoc:
  "and_then (and_then r f) g = and_then r (\<lambda>fs. and_then (f fs) g)"
  by (simp add: and_then_def Let_def)

lemma repair_each_emits:
  "repair_each (map Emit msgs @ evs) rules out fs
     = (repair_each evs rules out fs)
         \<lparr>messages := msgs @ messages (repair_each evs rules out fs)\<rparr>"
  by (induction msgs) (simp_all add: Let_def)

lemma repair_each_scan_cons:
  "repair_each (scan_entries (f # rest)) rules out fs
     = and_then (repair_each (scan_entries [f]) rules out fs)
         (repair_each (scan_entries rest) rules out)"
proof (cases "is_file f")
  case False
  then show ?thesis by (simp add: and_then_stop)
next
  case True
  obtain msgs res where l: "load_header f = (msgs, res)" by (cases "load_header f")
  show ?thesis
  proof (cases res)
    case (Inl e)
    with True l show ?thesis
      by (simp add: repair_each_emits Let_def and_then_def)
  next
    case (Inr dso)
    with True l show ?thesis
      by (auto simp: repair_each_emits Let_def and_then_def)
  qed
qed

lemma repair_each_scan_append:
  "repair_each (scan_entries (xs @ ys)) rules out fs
     = and_then (repair_each (scan_entries xs) rules out fs)
         (repair_each (scan_entries ys) rules out)"
proof (induction xs arbitrary: fs)
  case Nil
  show ?case by (simp add: and_then_stop)
next
  case (Cons x xs)
  have "repair_each (scan_entries ((x # xs) @ ys)) rules out fs
      = and_then (repair_each (scan_entries [x]) rules out fs)
          (repair_each (scan_entries (xs @ ys)) rules out)"
    by (simp only: append_Cons repair_each_scan_cons [of x "xs @ ys"])
  also have "repair_each (scan_entries (xs @ ys)) rules out
      = (\<lambda>g. and_then (repair_each (scan_entries xs) rules out g)
           (repair_each (scan_entries ys) rules out))"
    by (rule ext) (rule Cons.IH)
  also have "and_then (repair_each (scan_entries [x]) rules out fs)
      (\<lambda>g. and_then (repair_each (scan_entries xs) rules out g)
         (repair_each (scan_entries ys) rules out))
    = and_then (and_then (repair_each (scan_entries [x]) rules out fs)
      (repair_each (scan_entries xs) rules out)) (repair_each (scan_entries ys) rules out)"
    by (simp only: and_then_assoc)
  also have "and_then (repair_each (scan_entries [x]) rules out fs)
      (repair_each (scan_entries xs) rules out)
    = repair_each (scan_entries (x # xs)) rules out fs"
    by (simp only: repair_each_scan_cons [of x xs])
  finally show ?case .
qed

lemma entry_named_member:
  "distinct (map node_name cs) \<Longrightarrow> c \<in> set cs \<Longrightarrow> entry_named (node_name c) cs = Some c"
  by (induction cs) auto

lemma entries_at_snoc:
  "entries_at tree p = Some cs \<Longrightarrow> entry_named x cs = Some c \<Longrightarrow>
   entries_at tree (p @ [x]) = entries_at c []"
proof (induction tree p rule: entries_at.induct)
  case (1 n r p)
  then show ?case by simp
next
  case (2 n cs')
  then show ?case by (cases c) simp_all
next
  case (3 n cs' y p)
  then show ?case by (auto split: option.splits)
qed

lemma and_then_cong_files:
  "f (files r) = g (files r) \<Longrightarrow> and_then r f = and_then r g"
  by (simp add: and_then_def)

lemma repair_each_keeps_tree:
  "input_tree (files (repair_each evs rules Elsewhere fs)) = input_tree fs"
  using repair_each_elsewhere [of fs fs evs rules] by (simp add: same_effect_def)

lemma repair_listed_keeps_tree:
  "input_tree (files (repair_listed names p rules Elsewhere fs)) = input_tree fs"
  using repair_listed_elsewhere [of fs fs names p rules] by (simp add: same_effect_def)

lemma repair_tree_keeps_tree:
  "input_tree (files (repair_tree node p rules Elsewhere fs)) = input_tree fs"
  using repair_tree_elsewhere [of fs fs node p rules] by (simp add: same_effect_def)

lemma repair_listed_is_scan:
  assumes "entries_at (input_tree fs) p = Some cs"
    and "distinct (map node_name cs)"
    and "set xs \<subseteq> set cs"
  shows "repair_listed (map node_name xs) p rules Elsewhere fs
     = repair_each (scan_entries xs) rules Elsewhere fs"
  using assms
proof (induction xs arbitrary: fs)
  case Nil
  show ?case by simp
next
  case (Cons x xs)
  let ?r1 = "repair_each (scan_entries [x]) rules Elsewhere fs"
  from Cons.prems have found: "entry_named (node_name x) cs = Some x"
    by (simp add: entry_named_member)
  have "entries_at (input_tree (files ?r1)) p = Some cs"
    using Cons.prems(1) by (simp only: repair_each_keeps_tree)
  with Cons.prems have rest: "repair_listed (map node_name xs) p rules Elsewhere (files ?r1)
      = repair_each (scan_entries xs) rules Elsewhere (files ?r1)"
    by (intro Cons.IH) simp_all
  have "repair_listed (map node_name (x # xs)) p rules Elsewhere fs
      = and_then ?r1 (repair_listed (map node_name xs) p rules Elsewhere)"
    using Cons.prems(1) found by simp
  also have "\<dots> = and_then ?r1 (repair_each (scan_entries xs) rules Elsewhere)"
    using rest by (rule and_then_cong_files)
  also have "\<dots> = repair_each (scan_entries (x # xs)) rules Elsewhere fs"
    by (simp only: repair_each_scan_cons [of x xs])
  finally show ?case .
qed

lemma repair_trees_is_scan:
  assumes each: "\<And>c q g. c \<in> set sub \<Longrightarrow> entries_at (input_tree g) q = entries_at c [] \<Longrightarrow>
      repair_tree c q rules Elsewhere g
        = repair_each (scan_entries (glob_recursive c)) rules Elsewhere g"
    and at: "entries_at (input_tree fs) p = Some cs"
    and names: "distinct (map node_name cs)"
    and sub: "set sub \<subseteq> set cs"
  shows "repair_trees sub p rules Elsewhere fs
     = repair_each (scan_entries (concat (map glob_recursive sub))) rules Elsewhere fs"
  using each at sub
proof (induction sub arbitrary: fs)
  case Nil
  show ?case by simp
next
  case (Cons c sub)
  let ?r1 = "repair_each (scan_entries (glob_recursive c)) rules Elsewhere fs"
  from Cons.prems(3) names have "entry_named (node_name c) cs = Some c"
    by (simp add: entry_named_member)
  with Cons.prems(2) have "entries_at (input_tree fs) (p @ [node_name c]) = entries_at c []"
    by (rule entries_at_snoc)
  then have first: "repair_tree c (p @ [node_name c]) rules Elsewhere fs = ?r1"
    using Cons.prems(1) by simp
  have "entries_at (input_tree (files ?r1)) p = Some cs"
    using Cons.prems(2) by (simp only: repair_each_keeps_tree)
  then have rest: "repair_trees sub p rules Elsewhere (files ?r1)
      = repair_each (scan_entries (concat (map glob_recursive sub))) rules Elsewhere (files ?r1)"
    using Cons.prems(1,3) by (intro Cons.IH) simp_all
  have "repair_trees (c # sub) p rules Elsewhere fs
      = and_then ?r1 (repair_trees sub p rules Elsewhere)"
    using first by simp
  also have "\<dots> = and_then ?r1
      (repair_each (scan_entries (concat (map glob_recursive sub))) rules Elsewhere)"
    using rest by (rule and_then_cong_files)
  also have "\<dots> = repair_each (scan_entries (glob_recursive c @ concat (map glob_recursive sub)))
      rules Elsewhere fs"
    by (simp only: repair_each_scan_append)
  finally show ?case by simp
qed

lemma repair_tree_is_scan:
  assumes "names_distinct node"
    and "entries_at (input_tree fs) p = entries_at node []"
  shows "repair_tree node p rules Elsewhere fs
     = repair_each (scan_entries (glob_recursive node)) rules Elsewhere fs"
  using assms
proof (induction node arbitrary: p fs)
  case (File n r)
  show ?case by simp
next
  case (Dir n cs)
  let ?r1 = "repair_each (scan_entries cs) rules Elsewhere fs"
  from Dir.prems have at: "entries_at (input_tree fs) p = Some cs"
    and names: "distinct (map node_name cs)"
    and below: "\<And>c. c \<in> set cs \<Longrightarrow> names_distinct c"
    by simp_all
  from at names have listed: "repair_listed (listing (input_tree fs) p) p rules Elsewhere fs = ?r1"
    by (simp add: listing_def repair_listed_is_scan [of fs p cs cs])
  have at': "entries_at (input_tree (files ?r1)) p = Some cs"
    using at by (simp only: repair_each_keeps_tree)
  have rest: "repair_trees cs p rules Elsewhere (files ?r1)
      = repair_each (scan_entries (concat (map glob_recursive cs))) rules Elsewhere (files ?r1)"
  proof (rule repair_trees_is_scan [OF _ at' names])
    fix c q and g :: filesystem
    assume "c \<in> set cs" and "entries_at (input_tree g) q = entries_at c []"
    then show "repair_tree c q rules Elsewhere g
        = repair_each (scan_entries (glob_recursive c)) rules Elsewhere g"
      using Dir.IH below by simp
  qed simp
  have "repair_tree (Dir n cs) p rules Elsewhere fs
      = and_then ?r1 (repair_trees cs p rules Elsewhere)"
    using listed by simp
  also have "\<dots> = and_then ?r1
      (repair_each (scan_entries (concat (map glob_recursive cs))) rules Elsewhere)"
    using rest by (rule and_then_cong_files)
  also have "\<dots> = repair_each (scan_entries (cs @ concat (map glob_recursive cs)))
      rules Elsewhere fs"
    by (simp only: repair_each_scan_append)
  finally show ?case by simp
qed

lemma perform_repairs_consumes_generator:
  "names_distinct (input_tree fs) \<Longrightarrow>
   perform_repairs fs Elsewhere rules
     = repair_each (get_dicom_images (input_tree fs) True) rules Elsewhere fs"
  by (simp add: perform_repairs_def get_dicom_images_def glob_def repair_tree_is_scan)

end
